theory Spec2Isabelle
  imports Complex_Main
begin

section \<open>Data model\<close>

text \<open>
  The interface \<^verbatim>\<open>GeoData\<close> of \<^verbatim>\<open>schema.ts\<close> and \<^verbatim>\<open>subscriptions.ts\<close>. The field
  \<^verbatim>\<open>id\<close> is called \<open>geoId\<close> here, since \<open>id\<close> is the identity function of HOL.
  A JavaScript \<^verbatim>\<open>number\<close> that holds a coordinate is an exact real number: the binary
  rounding of IEEE doubles, NaN and the infinities are not part of this development.
\<close>

record GeoData =
  geoId :: string
  name :: string
  lat :: real
  lon :: real
  "identifier" :: string
  timestamp :: string

section \<open>Server: resolvers.ts\<close>

text \<open>
  A JavaScript array is an object that is reached through a reference, and \<^verbatim>\<open>push\<close>
  changes the object in place. The arrays of the server therefore live in a store from
  references to contents; \<^verbatim>\<open>const geoDataStore\<close> is a fixed reference into it. What
  \<^verbatim>\<open>pubsub.publish\<close> was given is kept as a log of (trigger, payload) pairs.
\<close>

type_synonym ref = nat

record server =
  arrays :: "ref \<Rightarrow> GeoData list"
  published :: "(string \<times> GeoData) list"

definition NEW_GEO_DATA :: string where
  "NEW_GEO_DATA = ''NEW_GEO_DATA''"

definition geoDataStore :: ref where
  "geoDataStore = 0"

definition server0 :: server where
  "server0 = \<lparr>arrays = (\<lambda>_. []), published = []\<rparr>"

definition push :: "ref \<Rightarrow> GeoData \<Rightarrow> (ref \<Rightarrow> GeoData list) \<Rightarrow> (ref \<Rightarrow> GeoData list)" where
  "push r x h = h(r := h r @ [x])"

definition addGeoData :: "GeoData \<Rightarrow> server \<Rightarrow> server" where
  "addGeoData geoData s =
     s\<lparr>arrays := push geoDataStore geoData (arrays s),
       published := published s @ [(NEW_GEO_DATA, geoData)]\<rparr>"

text \<open>The resolver hands out the reference \<^verbatim>\<open>geoDataStore\<close> itself.\<close>

definition geoDataList :: "server \<Rightarrow> ref" where
  "geoDataList s = geoDataStore"

text \<open>What a holder of the reference \<open>r\<close> reads in the server state \<open>s\<close>.\<close>

definition deref :: "server \<Rightarrow> ref \<Rightarrow> GeoData list" where
  "deref s r = arrays s r"

definition addAll :: "GeoData list \<Rightarrow> server \<Rightarrow> server" where
  "addAll es s = foldl (\<lambda>t e. addGeoData e t) s es"

section \<open>Server: geo-simulator.ts\<close>

record bounds =
  minLat :: real
  maxLat :: real
  minLon :: real
  maxLon :: real

definition BOUNDS :: bounds where
  "BOUNDS = \<lparr>minLat = 35.0, maxLat = 60.0, minLon = -10.0, maxLon = 30.0\<rparr>"

text \<open>An entry of \<^verbatim>\<open>IDENTIFIER_POOL\<close>: \<^verbatim>\<open>{ id, name, lat, lon }\<close>.\<close>

record vehicle =
  vId :: string
  vName :: string
  vLat :: real
  vLon :: real

definition IDENTIFIER_POOL :: "vehicle list" where
  "IDENTIFIER_POOL =
     [\<lparr>vId = ''VEHICLE-001'', vName = ''Truck Alpha'', vLat = 52.52, vLon = 13.405\<rparr>,
      \<lparr>vId = ''VEHICLE-002'', vName = ''Van Beta'', vLat = 48.8566, vLon = 2.3522\<rparr>,
      \<lparr>vId = ''VEHICLE-003'', vName = ''Car Gamma'', vLat = 51.5074, vLon = -0.1278\<rparr>,
      \<lparr>vId = ''VEHICLE-004'', vName = ''Bike Delta'', vLat = 41.9028, vLon = 12.4964\<rparr>,
      \<lparr>vId = ''VEHICLE-005'', vName = ''Drone Echo'', vLat = 52.3676, vLon = 4.9041\<rparr>]"

record position =
  posLat :: real
  posLon :: real

text \<open>
  The module state: the map \<^verbatim>\<open>currentPositions\<close> and \<^verbatim>\<open>counter\<close>. The pool is a
  parameter of \<open>pick\<close>, \<open>generateRandomGeoData\<close>, \<open>tick\<close> and \<open>ticks\<close> below, so that
  what is proved of them holds for every pool; the program itself only ever runs
  them on the constant \<open>IDENTIFIER_POOL\<close>, which no code changes.
\<close>

record simulator =
  currentPositions :: "string \<rightharpoonup> position"
  counter :: nat

definition initPositions :: "vehicle list \<Rightarrow> (string \<rightharpoonup> position)" where
  "initPositions pool =
     foldl (\<lambda>m v. m(vId v \<mapsto> \<lparr>posLat = vLat v, posLon = vLon v\<rparr>)) Map.empty pool"

definition simulator0 :: "vehicle list \<Rightarrow> simulator" where
  "simulator0 pool = \<lparr>currentPositions = initPositions pool, counter = 0\<rparr>"

text \<open>
  Reading a property of \<^verbatim>\<open>undefined\<close> throws a \<^verbatim>\<open>TypeError\<close>; nothing else in the
  generator can throw.
\<close>

datatype error = TypeError

text \<open>\<^verbatim>\<open>Math.round\<close>: the nearest integer, a half rounded up.\<close>

definition Math_round :: "real \<Rightarrow> int" where
  "Math_round x = \<lfloor>x + 1 / 2\<rfloor>"

text \<open>A number inside a template literal: its decimal digits.\<close>

fun digits :: "nat \<Rightarrow> string" where
  "digits n =
     (if n < 10 then [''0123456789'' ! n]
      else digits (n div 10) @ [''0123456789'' ! (n mod 10)])"

declare digits.simps [simp del]

text \<open>
  \<^verbatim>\<open>IDENTIFIER_POOL[Math.floor(r * IDENTIFIER_POOL.length)]\<close>, for the value \<open>r\<close> that
  \<^verbatim>\<open>Math.random()\<close> returned: an index outside the array reads \<^verbatim>\<open>undefined\<close>.
\<close>

definition pick :: "vehicle list \<Rightarrow> real \<Rightarrow> vehicle option" where
  "pick pool r =
     (let k = \<lfloor>r * real (length pool)\<rfloor>
      in if 0 \<le> k \<and> k < int (length pool) then Some (pool ! nat k) else None)"

text \<open>
  One call of \<^verbatim>\<open>generateRandomGeoData\<close>. The three results of \<^verbatim>\<open>Math.random()\<close>, in
  the order of the calls, are \<open>r1\<close>, \<open>r2\<close> and \<open>r3\<close>; \<open>now\<close> is \<^verbatim>\<open>Date.now()\<close> and \<open>stamp\<close>
  is \<^verbatim>\<open>new Date().toISOString()\<close>. The state comes back also when the call throws:
  the counter was incremented before.
\<close>

definition generateRandomGeoData ::
  "vehicle list \<Rightarrow> real \<Rightarrow> real \<Rightarrow> real \<Rightarrow> nat \<Rightarrow> string \<Rightarrow> simulator
     \<Rightarrow> (error + GeoData) \<times> simulator" where
  "generateRandomGeoData pool r1 r2 r3 now stamp s =
     (let s1 = s\<lparr>counter := counter s + 1\<rparr> in
      case pick pool r1 of
        None \<Rightarrow> (Inl TypeError, s1)
      | Some vehicle \<Rightarrow>
          (case currentPositions s1 (vId vehicle) of
             None \<Rightarrow> (Inl TypeError, s1)
           | Some currentPos \<Rightarrow>
               (let latDelta = (r2 - 0.5) * 0.3;
                    lonDelta = (r3 - 0.5) * 0.3;
                    newLat = posLat currentPos + latDelta;
                    newLon = posLon currentPos + lonDelta;
                    newLat = max (minLat BOUNDS) (min (maxLat BOUNDS) newLat);
                    newLon = max (minLon BOUNDS) (min (maxLon BOUNDS) newLon);
                    s2 = s1\<lparr>currentPositions :=
                           (currentPositions s1)
                             (vId vehicle \<mapsto> \<lparr>posLat = newLat, posLon = newLon\<rparr>)\<rparr>
                in (Inr \<lparr>geoId = ''geo-'' @ digits now @ ''-'' @ digits (counter s1),
                         name = vName vehicle,
                         lat = real_of_int (Math_round (newLat * 1000000)) / 1000000,
                         lon = real_of_int (Math_round (newLon * 1000000)) / 1000000,
                         identifier = vId vehicle,
                         timestamp = stamp\<rparr>, s2))))"

text \<open>
  \<^verbatim>\<open>startGeoSimulator\<close> writes two lines to the console and registers the interval
  timer. It has no branch that throws or returns early, so its outcome is always
  \<open>Started\<close> with the period of the timer (5000 ms when no argument is given). The
  console is not modelled.
\<close>

datatype startup = Started nat | Refused error

definition startGeoSimulator :: "nat option \<Rightarrow> startup" where
  "startGeoSimulator intervalMs =
     Started (case intervalMs of None \<Rightarrow> 5000 | Some ms \<Rightarrow> ms)"

text \<open>
  The callback of the timer: one generated event is handed to \<^verbatim>\<open>addGeoData\<close>. An
  exception of the generator leaves the callback before \<^verbatim>\<open>addGeoData\<close> is reached.
\<close>

definition tick ::
  "vehicle list \<Rightarrow> real \<Rightarrow> real \<Rightarrow> real \<Rightarrow> nat \<Rightarrow> string \<Rightarrow> simulator \<times> server
     \<Rightarrow> error option \<times> simulator \<times> server" where
  "tick pool r1 r2 r3 now stamp st =
     (case generateRandomGeoData pool r1 r2 r3 now stamp (fst st) of
        (Inl e, sim) \<Rightarrow> (Some e, sim, snd st)
      | (Inr geoData, sim) \<Rightarrow> (None, sim, addGeoData geoData (snd st)))"

text \<open>
  The timer runs the callback once per period, on the draws and clock readings of
  that moment. An exception that leaves the callback is caught nowhere and ends the
  run.
\<close>

fun ticks ::
  "vehicle list \<Rightarrow> (real \<times> real \<times> real \<times> nat \<times> string) list \<Rightarrow> simulator \<times> server
     \<Rightarrow> error option \<times> simulator \<times> server" where
  "ticks pool [] st = (None, st)"
| "ticks pool ((r1, r2, r3, now, stamp) # ds) st =
     (case tick pool r1 r2 r3 now stamp st of
        (Some e, st') \<Rightarrow> (Some e, st')
      | (None, st') \<Rightarrow> ticks pool ds st')"

text \<open>
  An event to run the definitions on: the report with the number \<open>n\<close>, of the vehicle
  \<open>v\<close>.
\<close>

definition sampleEvent :: "string \<Rightarrow> nat \<Rightarrow> GeoData" where
  "sampleEvent v n =
     \<lparr>geoId = ''geo-0-'' @ digits n, name = ''Truck Alpha'',
      lat = 52, lon = 13, identifier = v, timestamp = ''''\<rparr>"

section \<open>Client: App.tsx, Map.tsx and Sidebar.tsx\<close>

subsection \<open>The features of the two vector sources\<close>

text \<open>
  The map library is not part of the repository. Of a feature, the development keeps
  the properties that \<^verbatim>\<open>Map.tsx\<close> gives it, its id and its own style. A feature with
  no style of its own (\<^verbatim>\<open>undefined\<close>, here \<open>None\<close>) is drawn with the style function
  of its layer; \<^verbatim>\<open>new Style({})\<close> has no fill, stroke, image or text, and a feature
  that carries it is not drawn. A geometry holds the \<^verbatim>\<open>[lon, lat]\<close> pairs that were
  handed to \<^verbatim>\<open>fromLonLat\<close>; the projection itself is the library's.
\<close>

datatype style = EmptyStyle

record pointFeature =
  pfId :: "string option"
  pfGeometry :: "real \<times> real"
  pfName :: string
  pfIdentifier :: string
  pfLat :: real
  pfLon :: real
  pfTimestamp :: string
  isLatest :: bool
  pointIndex :: nat
  pfStyle :: "style option"

record lineFeature =
  lfId :: "string option"
  lfGeometry :: "(real \<times> real) list"
  lfIdentifier :: string
  lfStyle :: "style option"

definition pointRendered :: "pointFeature \<Rightarrow> bool" where
  "pointRendered f = (pfStyle f = None)"

definition lineRendered :: "lineFeature \<Rightarrow> bool" where
  "lineRendered l = (lfStyle l = None)"

text \<open>
  \<^verbatim>\<open>VectorSource.addFeature\<close>: the source keeps its features by id and ignores a
  feature whose id it already holds. The features are listed in the order in which
  they were added.
\<close>

definition addPoint :: "pointFeature \<Rightarrow> pointFeature list \<Rightarrow> pointFeature list" where
  "addPoint f fs =
     (if pfId f \<noteq> None \<and> pfId f \<in> set (map pfId fs) then fs else fs @ [f])"

definition addLine :: "lineFeature \<Rightarrow> lineFeature list \<Rightarrow> lineFeature list" where
  "addLine l ls =
     (if lfId l \<noteq> None \<and> lfId l \<in> set (map lfId ls) then ls else ls @ [l])"

subsection \<open>The state of the client\<close>

text \<open>
  The state of \<^verbatim>\<open>App\<close> (\<open>filteredIdentifiers\<close>, \<open>recentData\<close>, \<open>notifications\<close>,
  \<open>focusPoint\<close>) and the references of \<^verbatim>\<open>MapView\<close> that outlive a rendering (the two
  vector sources, \<^verbatim>\<open>null\<close> before the map exists, and the trails
  \<open>geoDataByIdentifier\<close>).
\<close>

record client =
  filteredIdentifiers :: "string set"
  recentData :: "GeoData list"
  notifications :: "GeoData list"
  focusPoint :: "GeoData option"
  pointsSourceRef :: "pointFeature list option"
  linesSourceRef :: "lineFeature list option"
  geoDataByIdentifier :: "string \<rightharpoonup> GeoData list"

text \<open>The client once it is mounted: the map exists and nothing was received.\<close>

definition client0 :: client where
  "client0 =
     \<lparr>filteredIdentifiers = {}, recentData = [], notifications = [], focusPoint = None,
      pointsSourceRef = Some [], linesSourceRef = Some [], geoDataByIdentifier = Map.empty\<rparr>"

subsection \<open>App.tsx\<close>

text \<open>
  \<^verbatim>\<open>Array.prototype.slice(start)\<close>: a negative \<open>start\<close> counts from the end, and a
  \<open>start\<close> beyond either end of the array is moved to that end.
\<close>

definition slice :: "int \<Rightarrow> 'a list \<Rightarrow> 'a list" where
  "slice start xs =
     (let len = int (length xs);
          k = (if start < 0 then max (len + start) 0 else min start len)
      in drop (nat k) xs)"

definition handleNewGeoData :: "GeoData \<Rightarrow> client \<Rightarrow> client" where
  "handleNewGeoData data s =
     s\<lparr>recentData := slice (- 50) (recentData s) @ [data],
       notifications := slice (- 99) (notifications s) @ [data]\<rparr>"

definition handleNotificationClick :: "GeoData \<Rightarrow> client \<Rightarrow> client" where
  "handleNotificationClick data s =
     s\<lparr>notifications := filter (\<lambda>n. geoId n \<noteq> geoId data) (notifications s),
       focusPoint := Some data\<rparr>"

definition handleClearAllNotifications :: "client \<Rightarrow> client" where
  "handleClearAllNotifications s = s\<lparr>notifications := []\<rparr>"

subsection \<open>Map.tsx\<close>

text \<open>
  The effect that handles a value of the subscription. \<open>clearLatest\<close> is what it does
  to each feature of the points source before it adds the new one.
\<close>

definition clearLatest :: "string \<Rightarrow> pointFeature \<Rightarrow> pointFeature" where
  "clearLatest ident f =
     (if pfIdentifier f = ident \<and> isLatest f then f\<lparr>isLatest := False\<rparr> else f)"

definition dataEffect :: "GeoData option \<Rightarrow> client \<Rightarrow> client" where
  "dataEffect data s =
     (if data = None \<or> pointsSourceRef s = None \<or> linesSourceRef s = None then s
      else
        (let geoData = the data;
             points = the (pointsSourceRef s);
             lines = the (linesSourceRef s);
             s1 = handleNewGeoData geoData s;
             identifierData =
               (case geoDataByIdentifier s1 (identifier geoData) of
                  None \<Rightarrow> [] | Some ds \<Rightarrow> ds) @ [geoData];
             trails = (geoDataByIdentifier s1)(identifier geoData \<mapsto> identifierData);
             points = map (clearLatest (identifier geoData)) points;
             pointFeature =
               \<lparr>pfId = Some (geoId geoData),
                pfGeometry = (lon geoData, lat geoData),
                pfName = name geoData,
                pfIdentifier = identifier geoData,
                pfLat = lat geoData,
                pfLon = lon geoData,
                pfTimestamp = timestamp geoData,
                isLatest = True,
                pointIndex = length identifierData,
                pfStyle = None\<rparr>;
             points = addPoint pointFeature points;
             lineFeatureId = ''line-'' @ identifier geoData;
             existingLine = find (\<lambda>l. lfId l = Some lineFeatureId) lines;
             lines =
               (if 2 \<le> length identifierData then
                  (let coords = map (\<lambda>d. (lon d, lat d)) identifierData
                   in case existingLine of
                        Some _ \<Rightarrow>
                          map (\<lambda>l. if lfId l = Some lineFeatureId
                                   then l\<lparr>lfGeometry := coords\<rparr> else l) lines
                      | None \<Rightarrow>
                          addLine \<lparr>lfId = Some lineFeatureId, lfGeometry = coords,
                                   lfIdentifier = identifier geoData, lfStyle = None\<rparr>
                            lines)
                else lines)
         in s1\<lparr>geoDataByIdentifier := trails,
                pointsSourceRef := Some points,
                linesSourceRef := Some lines\<rparr>))"

text \<open>
  The effect that handles a change of the filter:
  \<^verbatim>\<open>filteredIdentifiers.size === 0 || filteredIdentifiers.has(identifier)\<close> decides,
  feature by feature, between no style of its own and the empty style
  (\<open>restylePoint\<close> and \<open>restyleLine\<close> are the two callbacks).
\<close>

definition visible :: "string set \<Rightarrow> string \<Rightarrow> bool" where
  "visible filtered ident = (filtered = {} \<or> ident \<in> filtered)"

definition restylePoint :: "string set \<Rightarrow> pointFeature \<Rightarrow> pointFeature" where
  "restylePoint filtered f =
     f\<lparr>pfStyle := if visible filtered (pfIdentifier f) then None else Some EmptyStyle\<rparr>"

definition restyleLine :: "string set \<Rightarrow> lineFeature \<Rightarrow> lineFeature" where
  "restyleLine filtered l =
     l\<lparr>lfStyle := if visible filtered (lfIdentifier l) then None else Some EmptyStyle\<rparr>"

definition filterEffect :: "client \<Rightarrow> client" where
  "filterEffect s =
     (if pointsSourceRef s = None \<or> linesSourceRef s = None then s
      else
        s\<lparr>pointsSourceRef :=
            Some (map (restylePoint (filteredIdentifiers s)) (the (pointsSourceRef s))),
          linesSourceRef :=
            Some (map (restyleLine (filteredIdentifiers s)) (the (linesSourceRef s)))\<rparr>)"

text \<open>
  \<^verbatim>\<open>onFilterChange\<close> is the state setter of \<^verbatim>\<open>App\<close>. Every caller hands it a new
  \<^verbatim>\<open>Set\<close> object, so the filter effect, which depends on \<open>filteredIdentifiers\<close> only,
  runs after each call and at no other time after mounting.
\<close>

definition setFilteredIdentifiers :: "string set \<Rightarrow> client \<Rightarrow> client" where
  "setFilteredIdentifiers filtered s = filterEffect (s\<lparr>filteredIdentifiers := filtered\<rparr>)"

subsection \<open>Sidebar.tsx\<close>

definition ALL_IDENTIFIERS :: "(string \<times> string) list" where
  "ALL_IDENTIFIERS =
     [(''VEHICLE-001'', ''Truck Alpha''), (''VEHICLE-002'', ''Van Beta''),
      (''VEHICLE-003'', ''Car Gamma''), (''VEHICLE-004'', ''Bike Delta''),
      (''VEHICLE-005'', ''Drone Echo'')]"

definition handleCheckboxChange :: "string \<Rightarrow> bool \<Rightarrow> client \<Rightarrow> client" where
  "handleCheckboxChange ident checked s =
     (let newFiltered = filteredIdentifiers s;
          newFiltered = (if checked then insert ident newFiltered
                         else newFiltered - {ident})
      in setFilteredIdentifiers newFiltered s)"

definition handleSelectAll :: "client \<Rightarrow> client" where
  "handleSelectAll s = setFilteredIdentifiers (set (map fst ALL_IDENTIFIERS)) s"

definition handleClearAll :: "client \<Rightarrow> client" where
  "handleClearAll s = setFilteredIdentifiers {} s"

text \<open>The \<^verbatim>\<open>checked\<close> property of the checkbox of a vehicle.\<close>

definition checkboxChecked :: "client \<Rightarrow> string \<Rightarrow> bool" where
  "checkboxChecked s ident = (filteredIdentifiers s = {} \<or> ident \<in> filteredIdentifiers s)"

subsection \<open>What can happen to a mounted client\<close>

text \<open>
  A value arrives on the subscription, a notification in the list is clicked, the
  notifications are cleared, the checkbox of a vehicle is clicked (the handler is told
  the opposite of what the checkbox shows), or one of the chips \<^verbatim>\<open>All\<close> and \<^verbatim>\<open>None\<close>
  is clicked.
\<close>

datatype action =
  NewGeoData GeoData
  | NotificationClick GeoData
  | ClearAllNotifications
  | CheckboxClick string
  | SelectAll
  | ClearAll

fun step :: "client \<Rightarrow> action \<Rightarrow> client" where
  "step s (NewGeoData geoData) = dataEffect (Some geoData) s"
| "step s (NotificationClick data) = handleNotificationClick data s"
| "step s ClearAllNotifications = handleClearAllNotifications s"
| "step s (CheckboxClick ident) = handleCheckboxChange ident (\<not> checkboxChecked s ident) s"
| "step s SelectAll = handleSelectAll s"
| "step s ClearAll = handleClearAll s"

definition run :: "action list \<Rightarrow> client" where
  "run acts = foldl step client0 acts"

text \<open>The client after the events \<open>es\<close> went through \<^verbatim>\<open>handleNewGeoData\<close>, in order.\<close>

definition received :: "GeoData list \<Rightarrow> client" where
  "received es = foldl (\<lambda>s e. handleNewGeoData e s) client0 es"

section \<open>The event store\<close>

lemma deref_addGeoData:
  "deref (addGeoData e s) geoDataStore = deref s geoDataStore @ [e]"
  by (simp add: deref_def addGeoData_def push_def)

lemma deref_addAll:
  "deref (addAll es s) geoDataStore = deref s geoDataStore @ es"
proof (induction es arbitrary: s)
  case Nil
  show ?case by (simp add: addAll_def)
next
  case (Cons e es)
  have "addAll (e # es) s = addAll es (addGeoData e s)"
    by (simp add: addAll_def)
  then show ?case
    using Cons.IH [of "addGeoData e s"] by (simp add: deref_addGeoData)
qed

text \<open>
  C1, as the specification has it: the sequence that \<^verbatim>\<open>geoDataList\<close> returned is not
  changed by an append made after the call. The code returns the store array itself,
  so this fails: on the empty store, the result of the query reads as the empty
  sequence at the call and as a one-element sequence after one \<^verbatim>\<open>addGeoData\<close>.
\<close>

theorem C1_snapshot_counterexample:
  "deref server0 (geoDataList server0) = [] \<and>
   deref (addGeoData (sampleEvent ''VEHICLE-001'' 0) server0) (geoDataList server0)
     = [sampleEvent ''VEHICLE-001'' 0] \<and>
   deref (addGeoData (sampleEvent ''VEHICLE-001'' 0) server0) (geoDataList server0)
     \<noteq> deref server0 (geoDataList server0)"
  by (simp add: deref_def geoDataList_def addGeoData_def push_def server0_def)

text \<open>
  C1, amended: \<^verbatim>\<open>geoDataList\<close> returns the event store itself, not a copy. Read at the
  call, the result is the full sequence of the events appended so far; read after
  further appends, it is that sequence followed by the events appended since, in
  order.
\<close>

theorem C1_geoDataList_is_live_store:
  "geoDataList s = geoDataStore \<and>
   deref s (geoDataList s) = arrays s geoDataStore \<and>
   deref (addAll es server0) (geoDataList (addAll es server0)) = es \<and>
   deref (addAll later s) (geoDataList s) = deref s (geoDataList s) @ later"
  by (simp add: geoDataList_def deref_addAll) (simp add: deref_def server0_def)

section \<open>The two capped lists of the client\<close>

lemma slice_last:
  "0 < k \<Longrightarrow> slice (- int k) xs = drop (length xs - k) xs"
proof -
  assume "0 < k"
  have "nat (max (int (length xs) - int k) 0) = length xs - k"
    by arith
  with \<open>0 < k\<close> show ?thesis
    by (simp add: slice_def Let_def)
qed

lemma received_snoc: "received (es @ [e]) = handleNewGeoData e (received es)"
  by (simp add: received_def)

lemma notifications_received:
  "notifications (received es) = drop (length es - 100) es"
proof (induction es rule: rev_induct)
  case Nil
  show ?case by (simp add: received_def client0_def)
next
  case (snoc e es)
  have "slice (- 99) (notifications (received es))
          = drop (length (notifications (received es)) - 99) (notifications (received es))"
    using slice_last [of 99 "notifications (received es)"] by simp
  moreover have "length es - (length es - 100 + 99) + (length es - 100) = length es - 99"
    by arith
  ultimately show ?case
    by (simp add: received_snoc handleNewGeoData_def snoc.IH)
qed

lemma recentData_received:
  "recentData (received es) = drop (length es - 51) es"
proof (induction es rule: rev_induct)
  case Nil
  show ?case by (simp add: received_def client0_def)
next
  case (snoc e es)
  have "slice (- 50) (recentData (received es))
          = drop (length (recentData (received es)) - 50) (recentData (received es))"
    using slice_last [of 50 "recentData (received es)"] by simp
  moreover have "length es - (length es - 51 + 50) + (length es - 51) = length es - 50"
    by arith
  ultimately show ?case
    by (simp add: received_snoc handleNewGeoData_def snoc.IH)
qed

text \<open>
  C2: after more than 100 events went through \<^verbatim>\<open>handleNewGeoData\<close>, the list
  \<open>notifications\<close> has exactly 100 entries, and they are the 100 events that arrived
  last, in the order of their arrival; after at most 100 events it holds all of them.
\<close>

theorem C2_notification_cap:
  "(100 < length es \<longrightarrow>
      length (notifications (received es)) = 100 \<and>
      notifications (received es) = drop (length es - 100) es) \<and>
   (length es \<le> 100 \<longrightarrow> notifications (received es) = es)"
  by (simp add: notifications_received)

theorem C2_notification_cap_witness:
  "100 < length (map (sampleEvent ''VEHICLE-001'') [0..<101]) \<and>
   length (notifications (received (map (sampleEvent ''VEHICLE-001'') [0..<101]))) = 100 \<and>
   notifications (received (map (sampleEvent ''VEHICLE-001'') [0..<101]))
     = map (sampleEvent ''VEHICLE-001'') [1..<101] \<and>
   length [sampleEvent ''VEHICLE-001'' 0, sampleEvent ''VEHICLE-002'' 1] \<le> 100 \<and>
   notifications (received [sampleEvent ''VEHICLE-001'' 0, sampleEvent ''VEHICLE-002'' 1])
     = [sampleEvent ''VEHICLE-001'' 0, sampleEvent ''VEHICLE-002'' 1]"
  using C2_notification_cap [of "map (sampleEvent ''VEHICLE-001'') [0..<101]"]
    C2_notification_cap [of "[sampleEvent ''VEHICLE-001'' 0, sampleEvent ''VEHICLE-002'' 1]"]
  by (simp add: drop_map)

text \<open>
  C3 says that the list \<open>recentData\<close> never holds more than 50 events. The code keeps
  the last 50 entries of the old list and then appends the new event: after 51 events
  the list holds all 51 of them, and however many more arrive it holds 51, the events
  that arrived last.
\<close>

theorem C3_recentData_holds_51:
  "length (recentData (received (map (sampleEvent ''VEHICLE-001'') [0..<51]))) = 51 \<and>
   recentData (received (map (sampleEvent ''VEHICLE-001'') [0..<51]))
     = map (sampleEvent ''VEHICLE-001'') [0..<51] \<and>
   length (recentData (received (map (sampleEvent ''VEHICLE-001'') [0..<200]))) = 51"
  by (simp add: recentData_received)

section \<open>The generator\<close>

lemma Math_round_within:
  assumes "real_of_int a \<le> x" "x \<le> real_of_int b"
  shows "real_of_int a \<le> real_of_int (Math_round (x * 1000000)) / 1000000 \<and>
         real_of_int (Math_round (x * 1000000)) / 1000000 \<le> real_of_int b"
proof -
  have lo: "a * 1000000 \<le> Math_round (x * 1000000)"
    unfolding Math_round_def using assms(1) by (simp add: le_floor_iff)
  have hi: "Math_round (x * 1000000) \<le> b * 1000000"
    unfolding Math_round_def using assms(2) by (simp add: floor_le_iff)
  have "real_of_int (a * 1000000) \<le> real_of_int (Math_round (x * 1000000))"
    using lo of_int_le_iff by blast
  moreover have "real_of_int (Math_round (x * 1000000)) \<le> real_of_int (b * 1000000)"
    using hi of_int_le_iff by blast
  ultimately show ?thesis by (simp add: field_simps)
qed

lemma pick_Some_mem:
  assumes "pick pool r = Some v"
  shows "v \<in> set pool"
proof -
  define k where "k = \<lfloor>r * real (length pool)\<rfloor>"
  from assms have k: "0 \<le> k" "k < int (length pool)" and v: "v = pool ! nat k"
    by (auto simp: pick_def Let_def k_def split: if_splits)
  from k have "nat k < length pool" by linarith
  then show ?thesis using v by simp
qed

lemma pick_in_range:
  assumes "0 \<le> r" "r < 1" "pool \<noteq> []"
  shows "\<exists>v. pick pool r = Some v"
proof -
  have n: "0 < real (length pool)" using assms(3) by simp
  have "0 \<le> r * real (length pool)" using assms(1) by simp
  then have lo: "0 \<le> \<lfloor>r * real (length pool)\<rfloor>" by simp
  have "r * real (length pool) < real (length pool)"
    using assms(2) n by simp
  then have hi: "\<lfloor>r * real (length pool)\<rfloor> < int (length pool)"
    by (simp add: floor_less_iff)
  show ?thesis using lo hi by (simp add: pick_def Let_def)
qed

lemma generate_selected:
  assumes "pick pool r1 = Some v" "currentPositions s (vId v) = Some p"
  shows "generateRandomGeoData pool r1 r2 r3 now stamp s =
    (Inr \<lparr>geoId = ''geo-'' @ digits now @ ''-'' @ digits (counter s + 1),
          name = vName v,
          lat = real_of_int (Math_round (max 35 (min 60 (posLat p + (r2 - 0.5) * 0.3)) * 1000000)) / 1000000,
          lon = real_of_int (Math_round (max (-10) (min 30 (posLon p + (r3 - 0.5) * 0.3)) * 1000000)) / 1000000,
          identifier = vId v, timestamp = stamp\<rparr>,
     s\<lparr>counter := counter s + 1,
       currentPositions := (currentPositions s)(vId v \<mapsto>
         \<lparr>posLat = max 35 (min 60 (posLat p + (r2 - 0.5) * 0.3)),
          posLon = max (-10) (min 30 (posLon p + (r3 - 0.5) * 0.3))\<rparr>)\<rparr>)"
  using assms by (simp add: generateRandomGeoData_def Let_def BOUNDS_def)

lemma generate_Inr_cases:
  assumes "fst (generateRandomGeoData pool r1 r2 r3 now stamp s) = Inr g"
  obtains v p where "pick pool r1 = Some v" "currentPositions s (vId v) = Some p"
  using assms by (auto simp: generateRandomGeoData_def Let_def split: option.splits)

lemma generate_not_selected:
  "pick pool r1 = None \<Longrightarrow>
   generateRandomGeoData pool r1 r2 r3 now stamp s = (Inl TypeError, s\<lparr>counter := counter s + 1\<rparr>)"
  by (simp add: generateRandomGeoData_def)

text \<open>
  C6: every event that \<^verbatim>\<open>generateRandomGeoData\<close> produces lies in the configured
  bounding box, \<open>35 \<le> lat \<le> 60\<close> and \<open>-10 \<le> lon \<le> 30\<close>, also after its coordinates
  were rounded to six decimal places. This holds for every pool, every state and
  every value of the random draws.
\<close>

theorem C6_generated_within_bounds:
  assumes "fst (generateRandomGeoData pool r1 r2 r3 now stamp s) = Inr g"
  shows "minLat BOUNDS \<le> lat g \<and> lat g \<le> maxLat BOUNDS \<and>
         minLon BOUNDS \<le> lon g \<and> lon g \<le> maxLon BOUNDS \<and>
         35 \<le> lat g \<and> lat g \<le> 60 \<and> - 10 \<le> lon g \<and> lon g \<le> 30"
proof -
  from assms obtain v p where v: "pick pool r1 = Some v" and p: "currentPositions s (vId v) = Some p"
    by (rule generate_Inr_cases)
  define la where "la = max 35 (min 60 (posLat p + (r2 - 0.5) * 0.3))"
  define lo where "lo = max (-10) (min 30 (posLon p + (r3 - 0.5) * 0.3))"
  have g: "lat g = real_of_int (Math_round (la * 1000000)) / 1000000"
          "lon g = real_of_int (Math_round (lo * 1000000)) / 1000000"
    using assms generate_selected [OF v p, of r2 r3 now stamp] by (auto simp: la_def lo_def)
  have "real_of_int 35 \<le> la" "la \<le> real_of_int 60" by (simp_all add: la_def)
  from Math_round_within [OF this]
  have 1: "35 \<le> lat g \<and> lat g \<le> 60" using g by simp
  have "real_of_int (-10) \<le> lo" "lo \<le> real_of_int 30" by (simp_all add: lo_def)
  from Math_round_within [OF this]
  have 2: "-10 \<le> lon g \<and> lon g \<le> 30" using g by simp
  show ?thesis using 1 2 by (simp add: BOUNDS_def)
qed

lemma pool_positions:
  "currentPositions (simulator0 IDENTIFIER_POOL) =
     [''VEHICLE-001'' \<mapsto> \<lparr>posLat = 52.52, posLon = 13.405\<rparr>,
      ''VEHICLE-002'' \<mapsto> \<lparr>posLat = 48.8566, posLon = 2.3522\<rparr>,
      ''VEHICLE-003'' \<mapsto> \<lparr>posLat = 51.5074, posLon = -0.1278\<rparr>,
      ''VEHICLE-004'' \<mapsto> \<lparr>posLat = 41.9028, posLon = 12.4964\<rparr>,
      ''VEHICLE-005'' \<mapsto> \<lparr>posLat = 52.3676, posLon = 4.9041\<rparr>]"
  by (simp add: simulator0_def initPositions_def IDENTIFIER_POOL_def)

lemma pick_first: "pick IDENTIFIER_POOL 0 = Some (IDENTIFIER_POOL ! 0)"
  by (simp add: pick_def IDENTIFIER_POOL_def)

lemma pick_last: "pick IDENTIFIER_POOL 0.99 = Some (IDENTIFIER_POOL ! 4)"
  by (simp add: pick_def IDENTIFIER_POOL_def)


theorem C6_generated_within_bounds_witness:
  "fst (generateRandomGeoData IDENTIFIER_POOL 0.99 1 0 0 ''''
          \<lparr>currentPositions = [''VEHICLE-005'' \<mapsto> \<lparr>posLat = 59.9, posLon = -9.9\<rparr>], counter = 7\<rparr>)
     = Inr \<lparr>geoId = ''geo-0-8'', name = ''Drone Echo'', lat = 60, lon = -10,
            identifier = ''VEHICLE-005'', timestamp = ''''\<rparr> \<and>
   minLat BOUNDS \<le> lat \<lparr>geoId = ''geo-0-8'', name = ''Drone Echo'', lat = 60, lon = -10,
            identifier = ''VEHICLE-005'', timestamp = ''''\<rparr> \<and>
   lon \<lparr>geoId = ''geo-0-8'', name = ''Drone Echo'', lat = 60, lon = -10,
            identifier = ''VEHICLE-005'', timestamp = ''''\<rparr> \<le> maxLon BOUNDS"
proof -
  have v: "vId (IDENTIFIER_POOL ! 4) = ''VEHICLE-005''" "vName (IDENTIFIER_POOL ! 4) = ''Drone Echo''"
    by (simp_all add: IDENTIFIER_POOL_def)
  have h: "fst (generateRandomGeoData IDENTIFIER_POOL 0.99 1 0 0 ''''
          \<lparr>currentPositions = [''VEHICLE-005'' \<mapsto> \<lparr>posLat = 59.9, posLon = -9.9\<rparr>], counter = 7\<rparr>)
     = Inr \<lparr>geoId = ''geo-0-8'', name = ''Drone Echo'', lat = 60, lon = -10,
            identifier = ''VEHICLE-005'', timestamp = ''''\<rparr>"
    by (subst generate_selected [OF pick_last, of _ "\<lparr>posLat = 59.9, posLon = -9.9\<rparr>"])
       (simp_all add: v Math_round_def digits.simps)
  show ?thesis using C6_generated_within_bounds [OF h] h by simp
qed

lemma dom_foldl_positions:
  "dom (foldl (\<lambda>m v. m(vId v \<mapsto> \<lparr>posLat = vLat v, posLon = vLon v\<rparr>)) m pool)
     = dom m \<union> vId ` set pool"
  by (induction pool arbitrary: m) auto

lemma dom_initPositions: "dom (currentPositions (simulator0 pool)) = vId ` set pool"
  by (simp add: simulator0_def initPositions_def dom_foldl_positions)

lemma tick_succeeds:
  assumes "0 \<le> r1" "r1 < 1" "pool \<noteq> []" "vId ` set pool \<subseteq> dom (currentPositions sim)"
  shows "\<exists>sim' g. tick pool r1 r2 r3 now stamp (sim, srv) = (None, sim', addGeoData g srv) \<and>
                  vId ` set pool \<subseteq> dom (currentPositions sim')"
proof -
  from pick_in_range [OF assms(1-3)] obtain v where v: "pick pool r1 = Some v" ..
  then have "vId v \<in> dom (currentPositions sim)"
    using assms(4) pick_Some_mem by blast
  then obtain p where p: "currentPositions sim (vId v) = Some p" by blast
  show ?thesis
    using assms(4) by (auto simp: tick_def generate_selected [OF v p])
qed

lemma ticks_succeed:
  assumes "\<forall>d \<in> set ds. 0 \<le> fst d \<and> fst d < 1" "pool \<noteq> []"
    "vId ` set pool \<subseteq> dom (currentPositions sim)"
  shows "fst (ticks pool ds (sim, srv)) = None"
  using assms
proof (induction ds arbitrary: sim srv)
  case Nil
  show ?case by simp
next
  case (Cons d ds)
  obtain r1 r2 r3 now stamp where d: "d = (r1, r2, r3, now, stamp)"
    by (cases d) auto
  have r: "0 \<le> r1" "r1 < 1" using Cons.prems(1) d by auto
  from tick_succeeds [OF r Cons.prems(2,3), of r2 r3 now stamp srv]
  obtain sim' g where t: "tick pool r1 r2 r3 now stamp (sim, srv) = (None, sim', addGeoData g srv)"
    and k: "vId ` set pool \<subseteq> dom (currentPositions sim')" by blast
  have "fst (ticks pool ds (sim', addGeoData g srv)) = None"
    using Cons.IH [OF _ Cons.prems(2) k] Cons.prems(1) by simp
  then show ?case by (simp add: d t)
qed

text \<open>
  The pool of the program is the constant \<open>IDENTIFIER_POOL\<close>: it is not empty, and
  every id of it has a position from the start. So no tick of the timer fails,
  whatever \<^verbatim>\<open>Math.random\<close> returns in \<open>[0, 1)\<close>.
\<close>

lemma configured_ticks_succeed:
  assumes "\<forall>d \<in> set ds. 0 \<le> fst d \<and> fst d < 1"
  shows "fst (ticks IDENTIFIER_POOL ds (simulator0 IDENTIFIER_POOL, srv)) = None"
proof -
  have "IDENTIFIER_POOL \<noteq> []" by (simp add: IDENTIFIER_POOL_def)
  then show ?thesis
    using assms ticks_succeed [of ds IDENTIFIER_POOL "simulator0 IDENTIFIER_POOL" srv]
    by (simp add: dom_initPositions)
qed

lemma pool_ids_distinct: "distinct (map vId IDENTIFIER_POOL)"
  by (simp add: IDENTIFIER_POOL_def)

text \<open>
  C8: a call of \<^verbatim>\<open>generateRandomGeoData\<close> that selects the vehicle \<open>v\<close> stores the
  clamped new position under the id of \<open>v\<close> and leaves \<^verbatim>\<open>currentPositions\<close> as it was
  under every other key; in a pool with distinct ids, such as \<open>IDENTIFIER_POOL\<close>, the
  position of every other member is therefore unchanged.
\<close>

theorem C8_one_position_per_tick:
  assumes "pick pool r1 = Some v" and "currentPositions s (vId v) = Some p"
    and "s' = snd (generateRandomGeoData pool r1 r2 r3 now stamp s)"
  shows "currentPositions s' (vId v)
           = Some \<lparr>posLat = max 35 (min 60 (posLat p + (r2 - 0.5) * 0.3)),
                   posLon = max (- 10) (min 30 (posLon p + (r3 - 0.5) * 0.3))\<rparr> \<and>
         (\<forall>k. k \<noteq> vId v \<longrightarrow> currentPositions s' k = currentPositions s k) \<and>
         (distinct (map vId pool) \<longrightarrow>
            (\<forall>m \<in> set pool. m \<noteq> v \<longrightarrow> currentPositions s' (vId m) = currentPositions s (vId m)))"
proof -
  have s': "currentPositions s' = (currentPositions s)(vId v \<mapsto>
         \<lparr>posLat = max 35 (min 60 (posLat p + (r2 - 0.5) * 0.3)),
          posLon = max (-10) (min 30 (posLon p + (r3 - 0.5) * 0.3))\<rparr>)"
    by (simp add: assms(3) generate_selected [OF assms(1,2)])
  have "vId m \<noteq> vId v" if "distinct (map vId pool)" "m \<in> set pool" "m \<noteq> v" for m
  proof -
    have "inj_on vId (set pool)" using that(1) by (simp add: distinct_map)
    then show ?thesis
      using that(2,3) pick_Some_mem [OF assms(1)] by (auto dest: inj_onD)
  qed
  then show ?thesis by (simp add: s')
qed

lemma pick_middle: "pick IDENTIFIER_POOL (1 / 2) = Some (IDENTIFIER_POOL ! 2)"
  by (simp add: pick_def IDENTIFIER_POOL_def)

theorem C8_one_position_per_tick_witness:
  "pick IDENTIFIER_POOL (1 / 2) = Some (IDENTIFIER_POOL ! 2) \<and>
   vId (IDENTIFIER_POOL ! 2) = ''VEHICLE-003'' \<and>
   currentPositions (simulator0 IDENTIFIER_POOL) ''VEHICLE-003''
     = Some \<lparr>posLat = 51.5074, posLon = - 0.1278\<rparr> \<and>
   currentPositions
     (snd (generateRandomGeoData IDENTIFIER_POOL (1 / 2) 1 0 0 '''' (simulator0 IDENTIFIER_POOL)))
     ''VEHICLE-003'' = Some \<lparr>posLat = 51.6574, posLon = - 0.2778\<rparr> \<and>
   currentPositions
     (snd (generateRandomGeoData IDENTIFIER_POOL (1 / 2) 1 0 0 '''' (simulator0 IDENTIFIER_POOL)))
     ''VEHICLE-001'' = Some \<lparr>posLat = 52.52, posLon = 13.405\<rparr>"
proof -
  have v: "vId (IDENTIFIER_POOL ! 2) = ''VEHICLE-003''"
    by (simp add: IDENTIFIER_POOL_def)
  have p: "currentPositions (simulator0 IDENTIFIER_POOL) (vId (IDENTIFIER_POOL ! 2))
             = Some \<lparr>posLat = 51.5074, posLon = - 0.1278\<rparr>"
    by (simp add: v pool_positions)
  from C8_one_position_per_tick [OF pick_middle p refl, of 1 0 0 "''''"]
  show ?thesis using p by (simp add: v pick_middle pool_positions)
qed

section \<open>The latest flag\<close>

lemma clearLatest_identifier: "pfIdentifier (clearLatest j f) = pfIdentifier f"
  by (simp add: clearLatest_def)

lemma clearLatest_isLatest:
  "isLatest (clearLatest j f) = (isLatest f \<and> pfIdentifier f \<noteq> j)"
  by (cases "pfIdentifier f = j"; cases "isLatest f"; simp add: clearLatest_def)

lemma clearLatest_other: "pfIdentifier f \<noteq> j \<Longrightarrow> clearLatest j f = f"
  by (simp add: clearLatest_def)

lemma pointsOf_cleared_other:
  "i \<noteq> j \<Longrightarrow>
   filter (\<lambda>f. pfIdentifier f = i) (map (clearLatest j) ps)
     = filter (\<lambda>f. pfIdentifier f = i) ps"
proof (induction ps)
  case Nil
  show ?case by simp
next
  case (Cons p ps)
  show ?case
  proof (cases "pfIdentifier p = j")
    case True
    then show ?thesis using Cons by (simp add: clearLatest_identifier)
  next
    case False
    then show ?thesis using Cons by (simp add: clearLatest_other)
  qed
qed

lemma pointsOf_cleared_same:
  assumes "f \<in> set (filter (\<lambda>f. pfIdentifier f = j) (map (clearLatest j) ps))"
  shows "\<not> isLatest f"
proof -
  from assms have j: "pfIdentifier f = j" and "f \<in> clearLatest j ` set ps"
    by simp_all
  then obtain g where f: "f = clearLatest j g" by blast
  have "pfIdentifier g = j" using j by (simp add: f clearLatest_identifier)
  then show ?thesis by (simp add: f clearLatest_isLatest)
qed

text \<open>
  Of \<^verbatim>\<open>addFeature\<close>, the proofs about the flag use no more than this: the source
  either takes the feature as its last one or stays as it is.
\<close>

lemma addPoint_cases: "addPoint f fs = fs \<or> addPoint f fs = fs @ [f]"
  by (simp add: addPoint_def)

text \<open>
  The invariant of a points source: of the features of one identifier, in the order in
  which they were added, none but the last carries the flag.
\<close>

lemma latest_kept_by_new_point:
  assumes inv: "\<forall>i. \<forall>f \<in> set (butlast (filter (\<lambda>f. pfIdentifier f = i) ps)). \<not> isLatest f"
    and new: "pfIdentifier new = j"
  shows "\<forall>i. \<forall>f \<in> set (butlast (filter (\<lambda>f. pfIdentifier f = i)
           (addPoint new (map (clearLatest j) ps)))). \<not> isLatest f"
proof (intro allI ballI)
  fix i f
  assume f: "f \<in> set (butlast (filter (\<lambda>f. pfIdentifier f = i)
           (addPoint new (map (clearLatest j) ps))))"
  show "\<not> isLatest f"
  proof (cases "i = j")
    case False
    then have "filter (\<lambda>f. pfIdentifier f = i) (addPoint new (map (clearLatest j) ps))
                 = filter (\<lambda>f. pfIdentifier f = i) ps"
      using new pointsOf_cleared_other [of i j ps] by (simp add: addPoint_def)
    then show ?thesis using inv f by simp
  next
    case True
    have old: "\<not> isLatest g"
      if "g \<in> set (filter (\<lambda>f. pfIdentifier f = j) (map (clearLatest j) ps))" for g
      using that by (rule pointsOf_cleared_same)
    consider "addPoint new (map (clearLatest j) ps) = map (clearLatest j) ps"
      | "addPoint new (map (clearLatest j) ps) = map (clearLatest j) ps @ [new]"
      using addPoint_cases by blast
    then show ?thesis
    proof cases
      case 1
      have "f \<in> set (filter (\<lambda>f. pfIdentifier f = j) (map (clearLatest j) ps))"
        using f unfolding 1 True by (rule in_set_butlastD)
      then show ?thesis by (rule old)
    next
      case 2
      have "f \<in> set (filter (\<lambda>f. pfIdentifier f = j) (map (clearLatest j) ps))"
        using f new unfolding 2 True by (simp add: butlast_append)
      then show ?thesis by (rule old)
    qed
  qed
qed

lemma restylePoint_fields:
  "pfIdentifier (restylePoint F f) = pfIdentifier f" "isLatest (restylePoint F f) = isLatest f"
  "pfId (restylePoint F f) = pfId f"
  by (simp_all add: restylePoint_def)

lemma pointsOf_restyled:
  "filter (\<lambda>f. pfIdentifier f = i) (map (restylePoint F) ps)
     = map (restylePoint F) (filter (\<lambda>f. pfIdentifier f = i) ps)"
  by (induction ps) (simp_all add: restylePoint_fields)

lemma latest_kept_by_restyling:
  assumes inv: "\<forall>i. \<forall>f \<in> set (butlast (filter (\<lambda>f. pfIdentifier f = i) ps)). \<not> isLatest f"
  shows "\<forall>i. \<forall>f \<in> set (butlast (filter (\<lambda>f. pfIdentifier f = i)
           (map (restylePoint F) ps))). \<not> isLatest f"
proof (intro allI ballI)
  fix i f
  assume "f \<in> set (butlast (filter (\<lambda>f. pfIdentifier f = i) (map (restylePoint F) ps)))"
  then have "f \<in> restylePoint F ` set (butlast (filter (\<lambda>f. pfIdentifier f = i) ps))"
    by (simp add: pointsOf_restyled map_butlast [symmetric])
  then obtain g where "g \<in> set (butlast (filter (\<lambda>f. pfIdentifier f = i) ps))"
    and "f = restylePoint F g" by blast
  then show "\<not> isLatest f" using inv by (simp add: restylePoint_fields)
qed

section \<open>The effects on a mounted client\<close>

lemma dataEffect_unmounted:
  "pointsSourceRef s = None \<or> linesSourceRef s = None \<Longrightarrow> dataEffect d s = s"
  by (simp add: dataEffect_def)

lemma dataEffect_no_data: "dataEffect None s = s"
  by (simp add: dataEffect_def)

lemma points_after_dataEffect:
  assumes "pointsSourceRef s = Some ps" "linesSourceRef s = Some ls"
  shows "pointsSourceRef (dataEffect (Some e) s) =
           Some (addPoint
                   \<lparr>pfId = Some (geoId e), pfGeometry = (lon e, lat e),
                    pfName = name e, pfIdentifier = identifier e,
                    pfLat = lat e, pfLon = lon e, pfTimestamp = timestamp e,
                    isLatest = True,
                    pointIndex =
                      Suc (length (case geoDataByIdentifier s (identifier e) of
                                     None \<Rightarrow> [] | Some ds \<Rightarrow> ds)),
                    pfStyle = None\<rparr>
                   (map (clearLatest (identifier e)) ps))"
  using assms by (simp add: dataEffect_def Let_def handleNewGeoData_def)

lemma trails_after_dataEffect:
  assumes "pointsSourceRef s = Some ps" "linesSourceRef s = Some ls"
  shows "geoDataByIdentifier (dataEffect (Some e) s) =
           (geoDataByIdentifier s)(identifier e \<mapsto>
              (case geoDataByIdentifier s (identifier e) of None \<Rightarrow> [] | Some ds \<Rightarrow> ds) @ [e])"
  using assms by (simp add: dataEffect_def Let_def handleNewGeoData_def)

lemma app_after_dataEffect:
  assumes "pointsSourceRef s = Some ps" "linesSourceRef s = Some ls"
  shows "notifications (dataEffect (Some e) s) = slice (- 99) (notifications s) @ [e]"
    "recentData (dataEffect (Some e) s) = slice (- 50) (recentData s) @ [e]"
    "filteredIdentifiers (dataEffect (Some e) s) = filteredIdentifiers s"
    "focusPoint (dataEffect (Some e) s) = focusPoint s"
  using assms by (simp_all add: dataEffect_def Let_def handleNewGeoData_def)

lemma points_after_filter:
  assumes "pointsSourceRef s = Some ps" "linesSourceRef s = Some ls"
  shows "pointsSourceRef (setFilteredIdentifiers F s) = Some (map (restylePoint F) ps)"
    "linesSourceRef (setFilteredIdentifiers F s) = Some (map (restyleLine F) ls)"
  using assms by (simp_all add: setFilteredIdentifiers_def filterEffect_def)

lemma filter_unmounted:
  "pointsSourceRef s = None \<or> linesSourceRef s = None \<Longrightarrow>
   setFilteredIdentifiers F s = s\<lparr>filteredIdentifiers := F\<rparr>"
  by (simp add: setFilteredIdentifiers_def filterEffect_def)

lemma app_after_filter:
  "filteredIdentifiers (setFilteredIdentifiers F s) = F"
  "notifications (setFilteredIdentifiers F s) = notifications s"
  "recentData (setFilteredIdentifiers F s) = recentData s"
  "geoDataByIdentifier (setFilteredIdentifiers F s) = geoDataByIdentifier s"
  "focusPoint (setFilteredIdentifiers F s) = focusPoint s"
  by (simp_all add: setFilteredIdentifiers_def filterEffect_def)

text \<open>
  Every step other than the arrival of an event is a change of the filter or leaves
  the sources, the trails and the filter alone.
\<close>

lemma step_cases:
  obtains (event) e where "a = NewGeoData e" "step s a = dataEffect (Some e) s"
  | (filter) F where "step s a = setFilteredIdentifiers F s"
  | (app) "pointsSourceRef (step s a) = pointsSourceRef s"
      "linesSourceRef (step s a) = linesSourceRef s"
      "geoDataByIdentifier (step s a) = geoDataByIdentifier s"
      "filteredIdentifiers (step s a) = filteredIdentifiers s"
      "set (notifications (step s a)) \<subseteq> set (notifications s)"
proof (cases a)
  case (NewGeoData e)
  then show ?thesis using event by simp
next
  case (NotificationClick d)
  then show ?thesis using app by (simp add: handleNotificationClick_def)
next
  case ClearAllNotifications
  then show ?thesis using app by (simp add: handleClearAllNotifications_def)
next
  case (CheckboxClick v)
  then show ?thesis using filter by (simp add: handleCheckboxChange_def Let_def)
next
  case SelectAll
  then show ?thesis using filter by (simp add: handleSelectAll_def)
next
  case ClearAll
  then show ?thesis using filter by (simp add: handleClearAll_def)
qed

lemma run_snoc: "run (acts @ [a]) = step (run acts) a"
  by (simp add: run_def)

lemma mounted_step:
  assumes "pointsSourceRef s \<noteq> None \<and> linesSourceRef s \<noteq> None"
  shows "pointsSourceRef (step s a) \<noteq> None \<and> linesSourceRef (step s a) \<noteq> None"
proof -
  from assms obtain ps ls where m: "pointsSourceRef s = Some ps" "linesSourceRef s = Some ls"
    by blast
  show ?thesis
  proof (cases rule: step_cases [of a s])
    case (event e)
    then show ?thesis using m by (simp add: dataEffect_def Let_def)
  next
    case (filter F)
    then show ?thesis by (simp add: points_after_filter [OF m])
  next
    case app
    then show ?thesis using m by simp
  qed
qed

lemma mounted_run:
  "pointsSourceRef (run acts) \<noteq> None \<and> linesSourceRef (run acts) \<noteq> None"
proof (induction acts rule: rev_induct)
  case Nil
  show ?case by (simp add: run_def client0_def)
next
  case (snoc a acts)
  show ?case unfolding run_snoc by (rule mounted_step [OF snoc.IH])
qed

lemma latest_kept_by_step:
  assumes m: "pointsSourceRef s = Some ps" "linesSourceRef s = Some ls"
    and inv: "\<forall>i. \<forall>f \<in> set (butlast (filter (\<lambda>f. pfIdentifier f = i) ps)). \<not> isLatest f"
    and ps': "pointsSourceRef (step s a) = Some ps'"
  shows "\<forall>i. \<forall>f \<in> set (butlast (filter (\<lambda>f. pfIdentifier f = i) ps')). \<not> isLatest f"
proof (cases rule: step_cases [of a s])
  case (event e)
  define new where
    "new = \<lparr>pfId = Some (geoId e), pfGeometry = (lon e, lat e),
             pfName = name e, pfIdentifier = identifier e,
             pfLat = lat e, pfLon = lon e, pfTimestamp = timestamp e,
             isLatest = True,
             pointIndex =
               Suc (length (case geoDataByIdentifier s (identifier e) of
                              None \<Rightarrow> [] | Some ds \<Rightarrow> ds)),
             pfStyle = None\<rparr>"
  have new: "pfIdentifier new = identifier e" by (simp add: new_def)
  have "ps' = addPoint new (map (clearLatest (identifier e)) ps)"
    using ps' event by (simp add: points_after_dataEffect [OF m] new_def)
  then show ?thesis
    using latest_kept_by_new_point [OF inv new] by simp
next
  case (filter F)
  have "ps' = map (restylePoint F) ps"
    using ps' filter by (simp add: points_after_filter [OF m])
  then show ?thesis
    using latest_kept_by_restyling [OF inv, of F] by simp
next
  case app
  then show ?thesis using ps' m inv by simp
qed

lemma latest_kept_by_run:
  "pointsSourceRef (run acts) = Some ps \<Longrightarrow>
   \<forall>i. \<forall>f \<in> set (butlast (filter (\<lambda>f. pfIdentifier f = i) ps)). \<not> isLatest f"
proof (induction acts arbitrary: ps rule: rev_induct)
  case Nil
  then show ?case by (simp add: run_def client0_def)
next
  case (snoc a acts)
  from mounted_run [of acts] obtain ps0 ls0 where
    m: "pointsSourceRef (run acts) = Some ps0" "linesSourceRef (run acts) = Some ls0" by blast
  show ?case
    using latest_kept_by_step [OF m snoc.IH [OF m(1)]] snoc.prems unfolding run_snoc by blast
qed

text \<open>
  C5: whatever happened to the client since it was mounted (events that arrived, clicks
  on notifications, changes of the filter), the points source holds for every
  identifier at most one feature that carries \<open>isLatest\<close>, and a feature that carries
  it is the last one that was added for its identifier.
\<close>

theorem C5_one_latest_per_identifier:
  assumes "pointsSourceRef (run acts) = Some ps"
  shows "length (filter (\<lambda>f. pfIdentifier f = i \<and> isLatest f) ps) \<le> 1 \<and>
         (\<forall>f \<in> set ps. isLatest f \<longrightarrow>
            last (filter (\<lambda>g. pfIdentifier g = pfIdentifier f) ps) = f)"
proof -
  have inv: "\<not> isLatest f" if "f \<in> set (butlast (filter (\<lambda>f. pfIdentifier f = i) ps))" for i f
    using latest_kept_by_run [OF assms] that by blast
  have one: "length (filter (\<lambda>f. pfIdentifier f = i \<and> isLatest f) ps) \<le> 1"
  proof -
    define xs where "xs = filter (\<lambda>f. pfIdentifier f = i) ps"
    have split: "filter (\<lambda>f. pfIdentifier f = i \<and> isLatest f) ps = filter isLatest xs"
      by (simp add: xs_def conj_commute)
    show ?thesis
    proof (cases xs rule: rev_cases)
      case Nil
      then show ?thesis by (simp add: split)
    next
      case (snoc ys y)
      have "\<not> isLatest f" if "f \<in> set ys" for f
        using inv [of f i] that snoc by (simp add: xs_def)
      then have "filter isLatest ys = []" by (simp add: filter_empty_conv)
      then show ?thesis by (simp add: split snoc)
    qed
  qed
  have last: "last (filter (\<lambda>g. pfIdentifier g = pfIdentifier f) ps) = f"
    if "f \<in> set ps" "isLatest f" for f
  proof -
    define xs where "xs = filter (\<lambda>g. pfIdentifier g = pfIdentifier f) ps"
    have mem: "f \<in> set xs" using that(1) by (simp add: xs_def)
    show ?thesis
    proof (cases xs rule: rev_cases)
      case Nil
      then show ?thesis using mem by simp
    next
      case (snoc ys y)
      have "f \<notin> set ys"
        using inv [of f "pfIdentifier f"] that(2) snoc by (auto simp: xs_def)
      then have "f = y" using mem snoc by simp
      then show ?thesis using snoc by (simp add: xs_def)
    qed
  qed
  show ?thesis using one last by blast
qed


lemma run3_points:
  "map (\<lambda>f. (pfId f, pfIdentifier f, isLatest f, pointIndex f))
     (the (pointsSourceRef
        (run [NewGeoData (sampleEvent ''VEHICLE-001'' 0),
              NewGeoData (sampleEvent ''VEHICLE-002'' 1),
              NewGeoData (sampleEvent ''VEHICLE-001'' 2)])))
   = [(Some ''geo-0-0'', ''VEHICLE-001'', False, 1),
      (Some ''geo-0-1'', ''VEHICLE-002'', True, 1),
      (Some ''geo-0-2'', ''VEHICLE-001'', True, 2)]"
  by (simp add: run_def dataEffect_def Let_def handleNewGeoData_def client0_def sampleEvent_def
        addPoint_def addLine_def clearLatest_def slice_def digits.simps)

theorem C5_one_latest_per_identifier_witness:
  "map (\<lambda>f. (pfId f, pfIdentifier f, isLatest f, pointIndex f))
     (the (pointsSourceRef
        (run [NewGeoData (sampleEvent ''VEHICLE-001'' 0),
              NewGeoData (sampleEvent ''VEHICLE-002'' 1),
              NewGeoData (sampleEvent ''VEHICLE-001'' 2)])))
   = [(Some ''geo-0-0'', ''VEHICLE-001'', False, 1),
      (Some ''geo-0-1'', ''VEHICLE-002'', True, 1),
      (Some ''geo-0-2'', ''VEHICLE-001'', True, 2)] \<and>
   length (filter (\<lambda>f. pfIdentifier f = ''VEHICLE-001'' \<and> isLatest f)
     (the (pointsSourceRef
        (run [NewGeoData (sampleEvent ''VEHICLE-001'' 0),
              NewGeoData (sampleEvent ''VEHICLE-002'' 1),
              NewGeoData (sampleEvent ''VEHICLE-001'' 2)])))) \<le> 1"
proof -
  have "pointsSourceRef
          (run [NewGeoData (sampleEvent ''VEHICLE-001'' 0),
                NewGeoData (sampleEvent ''VEHICLE-002'' 1),
                NewGeoData (sampleEvent ''VEHICLE-001'' 2)])
        = Some (the (pointsSourceRef
          (run [NewGeoData (sampleEvent ''VEHICLE-001'' 0),
                NewGeoData (sampleEvent ''VEHICLE-002'' 1),
                NewGeoData (sampleEvent ''VEHICLE-001'' 2)])))"
    using mounted_run
      [of "[NewGeoData (sampleEvent ''VEHICLE-001'' 0),
            NewGeoData (sampleEvent ''VEHICLE-002'' 1),
            NewGeoData (sampleEvent ''VEHICLE-001'' 2)]"]
    by simp
  from C5_one_latest_per_identifier [OF this, of "''VEHICLE-001''"]
  show ?thesis using run3_points by blast
qed

section \<open>Notifications and trails\<close>

lemma set_slice: "set (slice k xs) \<subseteq> set xs"
  by (simp add: slice_def Let_def set_drop_subset)

lemma notifications_in_trails_step:
  assumes inv: "\<forall>n \<in> set (notifications s).
                  \<exists>t. geoDataByIdentifier s (identifier n) = Some t \<and> n \<in> set t"
    and m: "pointsSourceRef s = Some ps" "linesSourceRef s = Some ls"
  shows "\<forall>n \<in> set (notifications (step s a)).
           \<exists>t. geoDataByIdentifier (step s a) (identifier n) = Some t \<and> n \<in> set t"
proof (cases rule: step_cases [of a s])
  case (event e)
  show ?thesis
  proof
    fix n
    assume "n \<in> set (notifications (step s a))"
    then have n: "n = e \<or> n \<in> set (notifications s)"
      using set_slice [of "- 99" "notifications s"]
      by (auto simp: event(2) app_after_dataEffect(1) [OF m])
    show "\<exists>t. geoDataByIdentifier (step s a) (identifier n) = Some t \<and> n \<in> set t"
    proof (cases "identifier n = identifier e")
      case True
      have "n \<in> set ((case geoDataByIdentifier s (identifier e) of
                          None \<Rightarrow> [] | Some ds \<Rightarrow> ds) @ [e])"
        using n inv True by (cases "n = e") auto
      then show ?thesis
        by (simp add: event(2) trails_after_dataEffect [OF m] True)
    next
      case False
      then have "n \<in> set (notifications s)" using n by auto
      then show ?thesis
        using inv False by (simp add: event(2) trails_after_dataEffect [OF m])
    qed
  qed
next
  case (filter F)
  then show ?thesis using inv by (simp add: app_after_filter)
next
  case app
  then show ?thesis using inv by auto
qed

lemma notifications_in_trails:
  "\<forall>n \<in> set (notifications (run acts)).
     \<exists>t. geoDataByIdentifier (run acts) (identifier n) = Some t \<and> n \<in> set t"
proof (induction acts rule: rev_induct)
  case Nil
  show ?case by (simp add: run_def client0_def)
next
  case (snoc a acts)
  from mounted_run [of acts] obtain ps ls where
    m: "pointsSourceRef (run acts) = Some ps" "linesSourceRef (run acts) = Some ls" by blast
  show ?case unfolding run_snoc by (rule notifications_in_trails_step [OF snoc.IH m])
qed

text \<open>
  C9: in every state that a mounted client can reach, a click on a notification \<open>data\<close>
  of the list removes from \<open>notifications\<close> exactly the entries whose id is that of
  \<open>data\<close>, keeps the other entries in their order, and changes neither \<open>recentData\<close>
  nor the trails nor the two sources nor the filter; the trail of the vehicle of
  \<open>data\<close> still holds \<open>data\<close>.
\<close>

theorem C9_click_removes_only_the_notification:
  assumes "s = run acts" and "data \<in> set (notifications s)"
    and "s' = handleNotificationClick data s"
  shows "notifications s' = filter (\<lambda>n. geoId n \<noteq> geoId data) (notifications s) \<and>
         recentData s' = recentData s \<and>
         geoDataByIdentifier s' = geoDataByIdentifier s \<and>
         pointsSourceRef s' = pointsSourceRef s \<and>
         linesSourceRef s' = linesSourceRef s \<and>
         filteredIdentifiers s' = filteredIdentifiers s \<and>
         (\<exists>trail. geoDataByIdentifier s' (identifier data) = Some trail \<and> data \<in> set trail)"
proof -
  have "\<exists>trail. geoDataByIdentifier s (identifier data) = Some trail \<and> data \<in> set trail"
    using notifications_in_trails [of acts] assms(1,2) by blast
  then show ?thesis by (simp add: assms(3) handleNotificationClick_def)
qed


lemma run2_notifications:
  "notifications (run [NewGeoData (sampleEvent ''VEHICLE-001'' 0),
                       NewGeoData (sampleEvent ''VEHICLE-002'' 1)])
     = [sampleEvent ''VEHICLE-001'' 0, sampleEvent ''VEHICLE-002'' 1]"
  by (simp add: run_def dataEffect_def Let_def handleNewGeoData_def client0_def slice_def)

theorem C9_click_removes_only_the_notification_witness:
  "sampleEvent ''VEHICLE-001'' 0
     \<in> set (notifications (run [NewGeoData (sampleEvent ''VEHICLE-001'' 0),
                                NewGeoData (sampleEvent ''VEHICLE-002'' 1)])) \<and>
   notifications (handleNotificationClick (sampleEvent ''VEHICLE-001'' 0)
       (run [NewGeoData (sampleEvent ''VEHICLE-001'' 0),
             NewGeoData (sampleEvent ''VEHICLE-002'' 1)]))
     = [sampleEvent ''VEHICLE-002'' 1] \<and>
   (\<exists>trail. geoDataByIdentifier (handleNotificationClick (sampleEvent ''VEHICLE-001'' 0)
       (run [NewGeoData (sampleEvent ''VEHICLE-001'' 0),
             NewGeoData (sampleEvent ''VEHICLE-002'' 1)])) ''VEHICLE-001'' = Some trail \<and>
      sampleEvent ''VEHICLE-001'' 0 \<in> set trail)"
proof -
  have mem: "sampleEvent ''VEHICLE-001'' 0
     \<in> set (notifications (run [NewGeoData (sampleEvent ''VEHICLE-001'' 0),
                                NewGeoData (sampleEvent ''VEHICLE-002'' 1)]))"
    unfolding run2_notifications by simp
  have ids: "geoId (sampleEvent ''VEHICLE-002'' 1) \<noteq> geoId (sampleEvent ''VEHICLE-001'' 0)"
    "identifier (sampleEvent ''VEHICLE-001'' 0) = ''VEHICLE-001''"
    by (simp_all add: sampleEvent_def digits.simps)
  note C9 = C9_click_removes_only_the_notification [OF refl mem refl]
  have "notifications (handleNotificationClick (sampleEvent ''VEHICLE-001'' 0)
       (run [NewGeoData (sampleEvent ''VEHICLE-001'' 0),
             NewGeoData (sampleEvent ''VEHICLE-002'' 1)]))
     = filter (\<lambda>n. geoId n \<noteq> geoId (sampleEvent ''VEHICLE-001'' 0))
         [sampleEvent ''VEHICLE-001'' 0, sampleEvent ''VEHICLE-002'' 1]"
    using C9 unfolding run2_notifications by blast
  then have removed: "notifications (handleNotificationClick (sampleEvent ''VEHICLE-001'' 0)
       (run [NewGeoData (sampleEvent ''VEHICLE-001'' 0),
             NewGeoData (sampleEvent ''VEHICLE-002'' 1)]))
     = [sampleEvent ''VEHICLE-002'' 1]"
    using ids(1) by simp
  have kept: "\<exists>trail. geoDataByIdentifier (handleNotificationClick (sampleEvent ''VEHICLE-001'' 0)
       (run [NewGeoData (sampleEvent ''VEHICLE-001'' 0),
             NewGeoData (sampleEvent ''VEHICLE-002'' 1)])) ''VEHICLE-001'' = Some trail \<and>
      sampleEvent ''VEHICLE-001'' 0 \<in> set trail"
    using C9 unfolding ids(2) by blast
  show ?thesis using mem removed kept by blast
qed

section \<open>The visibility filter\<close>

lemma restylePoint_rendered: "pointRendered (restylePoint F f) = visible F (pfIdentifier f)"
  by (simp add: restylePoint_def pointRendered_def)

lemma restyleLine_rendered: "lineRendered (restyleLine F l) = visible F (lfIdentifier l)"
  by (simp add: restyleLine_def lineRendered_def)

lemma restylePoint_data: "(restylePoint F f)\<lparr>pfStyle := st\<rparr> = f\<lparr>pfStyle := st\<rparr>"
  by (simp add: restylePoint_def)

lemma restyleLine_data: "(restyleLine F l)\<lparr>lfStyle := st\<rparr> = l\<lparr>lfStyle := st\<rparr>"
  by (simp add: restyleLine_def)

text \<open>
  What a change of the filter does to the features that the sources hold at that
  moment: every one of them is shown or hidden as the new set says (the empty set
  shows all), none is removed or added, and nothing but the style is changed.
\<close>

lemma filter_change_decides_visibility:
  assumes "pointsSourceRef s = Some ps" "linesSourceRef s = Some ls"
  shows "\<exists>ps' ls'.
           pointsSourceRef (setFilteredIdentifiers F s) = Some ps' \<and>
           linesSourceRef (setFilteredIdentifiers F s) = Some ls' \<and>
           (\<forall>f \<in> set ps'. pointRendered f = (F = {} \<or> pfIdentifier f \<in> F)) \<and>
           (\<forall>l \<in> set ls'. lineRendered l = (F = {} \<or> lfIdentifier l \<in> F)) \<and>
           map (\<lambda>f. f\<lparr>pfStyle := None\<rparr>) ps' = map (\<lambda>f. f\<lparr>pfStyle := None\<rparr>) ps \<and>
           map (\<lambda>l. l\<lparr>lfStyle := None\<rparr>) ls' = map (\<lambda>l. l\<lparr>lfStyle := None\<rparr>) ls"
proof -
  have "\<forall>f \<in> set (map (restylePoint F) ps). pointRendered f = (F = {} \<or> pfIdentifier f \<in> F)"
    by (simp add: restylePoint_rendered restylePoint_fields visible_def)
  moreover
  have "\<forall>l \<in> set (map (restyleLine F) ls). lineRendered l = (F = {} \<or> lfIdentifier l \<in> F)"
    by (simp add: restyleLine_rendered visible_def) (simp add: restyleLine_def)
  moreover
  have "map (\<lambda>f. f\<lparr>pfStyle := None\<rparr>) (map (restylePoint F) ps)
          = map (\<lambda>f. f\<lparr>pfStyle := None\<rparr>) ps"
    by (simp add: restylePoint_data)
  moreover
  have "map (\<lambda>l. l\<lparr>lfStyle := None\<rparr>) (map (restyleLine F) ls)
          = map (\<lambda>l. l\<lparr>lfStyle := None\<rparr>) ls"
    by (simp add: restyleLine_data)
  ultimately show ?thesis
    unfolding points_after_filter [OF assms] by blast
qed


text \<open>
  C4 says that under a filter that is not empty exactly the features of the vehicles
  in the set are drawn. A change of the filter sees to that for the features the
  sources hold at that moment (\<open>filter_change_decides_visibility\<close>), and it removes
  none. The effect that handles a new event, however, adds the new point, and a new
  route line, with no style of its own, and the filter effect does not run again:
  after \<^verbatim>\<open>All\<close> was clicked and the checkbox of VEHICLE-002 unchecked, the next two
  reports of VEHICLE-002 are drawn, both points and the line between them, though the
  vehicle is not in the filter set and its checkbox is shown unchecked.
\<close>

theorem C4_new_features_ignore_the_filter:
  "filteredIdentifiers
     (run [SelectAll, CheckboxClick ''VEHICLE-002'',
           NewGeoData (sampleEvent ''VEHICLE-002'' 0), NewGeoData (sampleEvent ''VEHICLE-002'' 1)])
     = {''VEHICLE-001'', ''VEHICLE-003'', ''VEHICLE-004'', ''VEHICLE-005''} \<and>
   \<not> checkboxChecked
     (run [SelectAll, CheckboxClick ''VEHICLE-002'',
           NewGeoData (sampleEvent ''VEHICLE-002'' 0), NewGeoData (sampleEvent ''VEHICLE-002'' 1)])
     ''VEHICLE-002'' \<and>
   map (\<lambda>f. (pfIdentifier f, pointRendered f))
     (the (pointsSourceRef
       (run [SelectAll, CheckboxClick ''VEHICLE-002'',
             NewGeoData (sampleEvent ''VEHICLE-002'' 0), NewGeoData (sampleEvent ''VEHICLE-002'' 1)])))
     = [(''VEHICLE-002'', True), (''VEHICLE-002'', True)] \<and>
   map (\<lambda>l. (lfIdentifier l, lineRendered l))
     (the (linesSourceRef
       (run [SelectAll, CheckboxClick ''VEHICLE-002'',
             NewGeoData (sampleEvent ''VEHICLE-002'' 0), NewGeoData (sampleEvent ''VEHICLE-002'' 1)])))
     = [(''VEHICLE-002'', True)]"
proof -
  have filt: "run [SelectAll, CheckboxClick ''VEHICLE-002'']
          = client0\<lparr>filteredIdentifiers :=
              {''VEHICLE-001'', ''VEHICLE-003'', ''VEHICLE-004'', ''VEHICLE-005''}\<rparr>"
    by (simp add: run_def handleSelectAll_def handleCheckboxChange_def checkboxChecked_def
          setFilteredIdentifiers_def filterEffect_def ALL_IDENTIFIERS_def client0_def Let_def)
       auto
  have "run [SelectAll, CheckboxClick ''VEHICLE-002'',
           NewGeoData (sampleEvent ''VEHICLE-002'' 0), NewGeoData (sampleEvent ''VEHICLE-002'' 1)]
        = dataEffect (Some (sampleEvent ''VEHICLE-002'' 1))
            (dataEffect (Some (sampleEvent ''VEHICLE-002'' 0))
               (run [SelectAll, CheckboxClick ''VEHICLE-002'']))"
    by (simp add: run_def)
  then show ?thesis
    unfolding filt
    by (simp add: dataEffect_def Let_def handleNewGeoData_def client0_def sampleEvent_def
          addPoint_def addLine_def clearLatest_def slice_def digits.simps checkboxChecked_def
          pointRendered_def lineRendered_def)
qed

lemma checkbox_click_in_show_all:
  assumes "filteredIdentifiers s = {}"
  shows "step s (CheckboxClick v) = setFilteredIdentifiers {} s"
    and "filteredIdentifiers (step s (CheckboxClick v)) = {}"
proof -
  show "step s (CheckboxClick v) = setFilteredIdentifiers {} s"
    by (simp add: assms checkboxChecked_def handleCheckboxChange_def)
  then show "filteredIdentifiers (step s (CheckboxClick v)) = {}"
    by (simp add: app_after_filter)
qed

lemma checkbox_clicks_in_show_all:
  "filteredIdentifiers s = {} \<Longrightarrow>
   filteredIdentifiers (foldl step s (map CheckboxClick vs)) = {}"
proof (induction vs arbitrary: s)
  case Nil
  then show ?case by simp
next
  case (Cons v vs)
  have "filteredIdentifiers (step s (CheckboxClick v)) = {}"
    using Cons.prems by (rule checkbox_click_in_show_all(2))
  then show ?case using Cons.IH by simp
qed

text \<open>
  C10: in a mounted client whose filter set is empty, every checkbox is shown checked;
  a click on the checkbox of a vehicle \<open>v\<close> calls \<^verbatim>\<open>handleCheckboxChange(v, false)\<close>,
  which leaves the filter set empty: all checkboxes, that of \<open>v\<close> too, are still
  shown checked, and every point and every line of the sources is still there and
  drawn. However many checkboxes are clicked one after another, the filter set stays
  empty.
\<close>

theorem C10_uncheck_in_show_all_state:
  assumes "filteredIdentifiers s = {}"
    and "pointsSourceRef s = Some ps" and "linesSourceRef s = Some ls"
    and "s' = handleCheckboxChange v False s"
  shows "checkboxChecked s v \<and>
         step s (CheckboxClick v) = s' \<and>
         filteredIdentifiers s' = {} \<and>
         (\<forall>w. checkboxChecked s' w) \<and>
         (\<exists>ps' ls'. pointsSourceRef s' = Some ps' \<and> linesSourceRef s' = Some ls' \<and>
            length ps' = length ps \<and> length ls' = length ls \<and>
            (\<forall>f \<in> set ps'. pointRendered f) \<and> (\<forall>l \<in> set ls'. lineRendered l)) \<and>
         (\<forall>vs. filteredIdentifiers (foldl step s (map CheckboxClick vs)) = {})"
proof -
  have s': "s' = setFilteredIdentifiers {} s"
    by (simp add: assms(1,4) handleCheckboxChange_def)
  have "checkboxChecked s v" by (simp add: checkboxChecked_def assms(1))
  moreover from this have "step s (CheckboxClick v) = s'" by (simp add: assms(4))
  moreover have "filteredIdentifiers s' = {}" by (simp add: s' app_after_filter)
  moreover from this have "\<forall>w. checkboxChecked s' w" by (simp add: checkboxChecked_def)
  moreover
  from filter_change_decides_visibility [OF assms(2,3), of "{}"]
  obtain ps' ls' where
    "pointsSourceRef s' = Some ps'" "linesSourceRef s' = Some ls'"
    "\<forall>f \<in> set ps'. pointRendered f" "\<forall>l \<in> set ls'. lineRendered l"
    "map (\<lambda>f. f\<lparr>pfStyle := None\<rparr>) ps' = map (\<lambda>f. f\<lparr>pfStyle := None\<rparr>) ps"
    "map (\<lambda>l. l\<lparr>lfStyle := None\<rparr>) ls' = map (\<lambda>l. l\<lparr>lfStyle := None\<rparr>) ls"
    unfolding s' by auto
  moreover from this(5,6) have "length ps' = length ps" "length ls' = length ls"
    by (metis length_map)+
  moreover have "\<forall>vs. filteredIdentifiers (foldl step s (map CheckboxClick vs)) = {}"
    using checkbox_clicks_in_show_all [OF assms(1)] by blast
  ultimately show ?thesis by blast
qed

lemma run2_same_vehicle:
  "filteredIdentifiers
     (run [NewGeoData (sampleEvent ''VEHICLE-001'' 0), NewGeoData (sampleEvent ''VEHICLE-001'' 1)])
     = {} \<and>
   map pfId (the (pointsSourceRef
     (run [NewGeoData (sampleEvent ''VEHICLE-001'' 0), NewGeoData (sampleEvent ''VEHICLE-001'' 1)])))
     = [Some ''geo-0-0'', Some ''geo-0-1''] \<and>
   map lfId (the (linesSourceRef
     (run [NewGeoData (sampleEvent ''VEHICLE-001'' 0), NewGeoData (sampleEvent ''VEHICLE-001'' 1)])))
     = [Some ''line-VEHICLE-001'']"
  by (simp add: run_def dataEffect_def Let_def handleNewGeoData_def client0_def sampleEvent_def
        addPoint_def addLine_def clearLatest_def slice_def digits.simps)

theorem C10_uncheck_in_show_all_state_witness:
  "filteredIdentifiers
     (run [NewGeoData (sampleEvent ''VEHICLE-001'' 0), NewGeoData (sampleEvent ''VEHICLE-001'' 1)])
     = {} \<and>
   length (the (pointsSourceRef
     (run [NewGeoData (sampleEvent ''VEHICLE-001'' 0), NewGeoData (sampleEvent ''VEHICLE-001'' 1)])))
     = 2 \<and>
   filteredIdentifiers (handleCheckboxChange ''VEHICLE-001'' False
     (run [NewGeoData (sampleEvent ''VEHICLE-001'' 0), NewGeoData (sampleEvent ''VEHICLE-001'' 1)]))
     = {} \<and>
   checkboxChecked (handleCheckboxChange ''VEHICLE-001'' False
     (run [NewGeoData (sampleEvent ''VEHICLE-001'' 0), NewGeoData (sampleEvent ''VEHICLE-001'' 1)]))
     ''VEHICLE-001'' \<and>
   (\<exists>ps'. pointsSourceRef (handleCheckboxChange ''VEHICLE-001'' False
       (run [NewGeoData (sampleEvent ''VEHICLE-001'' 0), NewGeoData (sampleEvent ''VEHICLE-001'' 1)]))
       = Some ps' \<and> length ps' = 2 \<and> list_all pointRendered ps')"
proof -
  define s where
    "s = run [NewGeoData (sampleEvent ''VEHICLE-001'' 0), NewGeoData (sampleEvent ''VEHICLE-001'' 1)]"
  have f: "filteredIdentifiers s = {}" and n: "length (the (pointsSourceRef s)) = 2"
    using run2_same_vehicle unfolding s_def by (blast, metis length_map length_Cons list.size(3) numeral_2_eq_2)
  have m: "pointsSourceRef s = Some (the (pointsSourceRef s))"
    "linesSourceRef s = Some (the (linesSourceRef s))"
    using mounted_run unfolding s_def by simp_all
  from C10_uncheck_in_show_all_state [OF f m refl, of "''VEHICLE-001''"]
  have "filteredIdentifiers (handleCheckboxChange ''VEHICLE-001'' False s) = {}"
    "checkboxChecked (handleCheckboxChange ''VEHICLE-001'' False s) ''VEHICLE-001''"
    "\<exists>ps'. pointsSourceRef (handleCheckboxChange ''VEHICLE-001'' False s) = Some ps' \<and>
        length ps' = 2 \<and> list_all pointRendered ps'"
    unfolding n list_all_iff by blast+
  then show ?thesis using f n unfolding s_def by blast
qed

end
